theory Spec2Isabelle
  imports Complex_Main
begin

section \<open>Dates\<close>

text \<open>
  A JavaScript \<^verbatim>\<open>Date\<close> is an instant with millisecond resolution. The functions of
  date-fns that the tracker calls (\<^verbatim>\<open>addDays\<close>, \<^verbatim>\<open>subDays\<close>, \<^verbatim>\<open>startOfDay\<close>,
  \<^verbatim>\<open>differenceInDays\<close>, \<^verbatim>\<open>format\<close>) work on the local wall clock. They belong to
  the library, not to the repository, and are modelled from the library's documentation for
  a time zone without daylight-saving shifts: a \<open>Date\<close> is the number of milliseconds of
  local time since the local epoch, every calendar day has \<open>MS_PER_DAY\<close> milliseconds,
  day \<open>k\<close> is the interval from \<open>k * MS_PER_DAY\<close> up to \<open>(k + 1) * MS_PER_DAY\<close>, and
  comparing two \<open>Date\<close>s with \<^verbatim>\<open><\<close> compares the instants.
\<close>

type_synonym Date = int

definition MS_PER_DAY :: int where
  "MS_PER_DAY = 86400000"

text \<open>\<^verbatim>\<open>addDays(date, amount)\<close>: the same time of day, \<open>amount\<close> calendar days later.\<close>

definition addDays :: "Date \<Rightarrow> int \<Rightarrow> Date" where
  "addDays date amount = date + amount * MS_PER_DAY"

text \<open>\<^verbatim>\<open>subDays(date, amount)\<close> is \<^verbatim>\<open>addDays(date, -amount)\<close>.\<close>

definition subDays :: "Date \<Rightarrow> int \<Rightarrow> Date" where
  "subDays date amount = addDays date (- amount)"

text \<open>\<^verbatim>\<open>startOfDay(date)\<close>: local midnight of the calendar day of \<open>date\<close>.\<close>

definition startOfDay :: "Date \<Rightarrow> Date" where
  "startOfDay date = date - date mod MS_PER_DAY"

text \<open>
  \<^verbatim>\<open>differenceInDays(later, earlier)\<close>: the number of \<^emph>\<open>full\<close> days between the two
  instants; a fractional day is truncated towards zero.
\<close>

definition differenceInDays :: "Date \<Rightarrow> Date \<Rightarrow> int" where
  "differenceInDays laterDate earlierDate =
     (if earlierDate \<le> laterDate then (laterDate - earlierDate) div MS_PER_DAY
      else - ((earlierDate - laterDate) div MS_PER_DAY))"

text \<open>The number of the calendar day an instant falls on.\<close>

definition dayOf :: "Date \<Rightarrow> int" where
  "dayOf date = date div MS_PER_DAY"

text \<open>
  \<^verbatim>\<open>format(date, "yyyy-MM-dd")\<close> prints the calendar day of \<open>date\<close>. The printed form of
  a day number is the parameter \<open>cal\<close> (the Gregorian calendar in the program).
\<close>

definition format :: "(int \<Rightarrow> string) \<Rightarrow> Date \<Rightarrow> string" where
  "format cal date = cal (dayOf date)"

section \<open>Entities (types/index.ts) and remote replies (lib/supabase.ts)\<close>

record Activity =
  a_id :: string
  a_name :: string
  a_created_at :: Date
  a_order_index :: int

record Log =
  l_id :: string
  l_activity_id :: string
  l_logged_date :: string
  l_created_at :: Date

record Note =
  n_id :: string
  n_logged_date :: string
  n_text :: string
  n_created_at :: Date
  n_updated_at :: Date

text \<open>
  The rows of the remote tables (\<^verbatim>\<open>DbActivity\<close>, \<^verbatim>\<open>DbLog\<close>, \<^verbatim>\<open>DbNote\<close>) have the
  fields of the entities, with timestamps as ISO-8601 strings; a row is represented by the
  entity that \<^verbatim>\<open>new Date(row.created_at)\<close> and the field copies make of it.

  Awaiting a query of the Supabase client yields an object \<^verbatim>\<open>{ data, error }\<close>; either
  field may be \<^verbatim>\<open>null\<close>. The client reports a failed request in \<open>error\<close>; it does not
  throw.
\<close>

record 'a response =
  data :: "'a option"
  error :: "string option"

section \<open>The data store (store/dataStore.ts)\<close>

record DataStore =
  activities :: "Activity list"
  logs :: "Log list"
  "notes" :: "Note list"
  startDate :: Date
  initialized :: bool
  useSupabase :: bool

text \<open>
  What the world supplies to a call is an argument of the call: \<open>uuid\<close> is the value of
  \<^verbatim>\<open>uuidv4()\<close>, \<open>now\<close> that of \<^verbatim>\<open>new Date()\<close>, and \<open>supabase\<close> is the module constant
  \<^verbatim>\<open>supabase\<close>: \<open>None\<close> when it is \<^verbatim>\<open>null\<close>, and \<open>Some r\<close> when a client is configured
  and replies \<open>r\<close> to the query the call awaits. \<^verbatim>\<open>console.error\<close> only writes a
  diagnostic and is left out.
\<close>

definition constructor :: "Date \<Rightarrow> bool \<Rightarrow> DataStore" where
  "constructor now supabase_configured =
     \<lparr>activities = [], logs = [], notes = [], startDate = subDays now 30,
      initialized = False, useSupabase = supabase_configured\<rparr>"

definition getStartDate :: "DataStore \<Rightarrow> Date" where
  "getStartDate s = startDate s"

definition getActivities :: "DataStore \<Rightarrow> Activity list" where
  "getActivities s = sort_key a_order_index (activities s)"

definition getLogs :: "DataStore \<Rightarrow> Log list" where
  "getLogs s = logs s"

definition getNotes :: "DataStore \<Rightarrow> Note list" where
  "getNotes s = notes s"

definition getLogsForActivity :: "DataStore \<Rightarrow> string \<Rightarrow> Log list" where
  "getLogsForActivity s activityId = filter (\<lambda>log. l_activity_id log = activityId) (logs s)"

definition getLogForActivityAndDate :: "DataStore \<Rightarrow> string \<Rightarrow> string \<Rightarrow> Log option" where
  "getLogForActivityAndDate s activityId date =
     find (\<lambda>log. l_activity_id log = activityId \<and> l_logged_date log = date) (logs s)"

definition getNoteForDate :: "DataStore \<Rightarrow> string \<Rightarrow> Note option" where
  "getNoteForDate s date = find (\<lambda>note. n_logged_date note = date) (notes s)"

text \<open>
  \<^verbatim>\<open>Math.max(...this.activities.map((a) => a.order_index), -1)\<close>.
\<close>

definition maxOrder :: "Activity list \<Rightarrow> int" where
  "maxOrder as = fold max (map a_order_index as) (- 1)"

definition addActivity ::
  "DataStore \<Rightarrow> string \<Rightarrow> string \<Rightarrow> Date \<Rightarrow> Activity response option \<Rightarrow> Activity \<times> DataStore" where
  "addActivity s name uuid now supabase =
     (let newActivity = \<lparr>a_id = uuid, a_name = name, a_created_at = now,
                          a_order_index = maxOrder (activities s) + 1\<rparr>;
          newActivity =
            (if useSupabase s then
               (case supabase of
                  None \<Rightarrow> newActivity
                | Some r \<Rightarrow>
                    (case error r of
                       Some e \<Rightarrow> newActivity
                     | None \<Rightarrow>
                         (case data r of
                            Some row \<Rightarrow> newActivity\<lparr>a_id := a_id row, a_created_at := a_created_at row\<rparr>
                          | None \<Rightarrow> newActivity)))
             else newActivity)
      in (newActivity, s\<lparr>activities := activities s @ [newActivity]\<rparr>))"

definition toggleLog ::
  "DataStore \<Rightarrow> string \<Rightarrow> string \<Rightarrow> string \<Rightarrow> Date \<Rightarrow> Log response option \<Rightarrow> Log option \<times> DataStore" where
  "toggleLog s activityId date uuid now supabase =
     (case getLogForActivityAndDate s activityId date of
        Some existingLog \<Rightarrow>
          (None, s\<lparr>logs := filter (\<lambda>log. l_id log \<noteq> l_id existingLog) (logs s)\<rparr>)
      | None \<Rightarrow>
          (let newLog = \<lparr>l_id = uuid, l_activity_id = activityId, l_logged_date = date,
                         l_created_at = now\<rparr>;
               newLog =
                 (if useSupabase s then
                    (case supabase of
                       None \<Rightarrow> newLog
                     | Some r \<Rightarrow>
                         (case error r of
                            Some e \<Rightarrow> newLog
                          | None \<Rightarrow>
                              (case data r of
                                 Some row \<Rightarrow> newLog\<lparr>l_id := l_id row, l_created_at := l_created_at row\<rparr>
                               | None \<Rightarrow> newLog)))
                  else newLog)
           in (Some newLog, s\<lparr>logs := logs s @ [newLog]\<rparr>)))"

text \<open>
  \<open>toggleLog\<close> above is a call that nothing interrupts. With a client the method awaits
  the remote query between its lookup and its change of \<^verbatim>\<open>this.logs\<close>, and other calls
  run during the await (the grid does not await the handler of a click). The two steps of
  such a call: \<open>toggleLog_begin\<close> is the code up to the await, which looks the log up
  and, when there is none, builds \<^verbatim>\<open>newLog\<close>; \<open>toggleLog_finish\<close> is the code after the
  await, on the store as it is by then and the reply \<open>r\<close> of the client. Without a client
  the method has no await and runs as \<open>toggleLog\<close>.
\<close>

datatype pending_toggle = Removing Log | Adding Log

definition toggleLog_begin ::
  "DataStore \<Rightarrow> string \<Rightarrow> string \<Rightarrow> string \<Rightarrow> Date \<Rightarrow> pending_toggle" where
  "toggleLog_begin s activityId date uuid now =
     (case getLogForActivityAndDate s activityId date of
        Some existingLog \<Rightarrow> Removing existingLog
      | None \<Rightarrow>
          Adding \<lparr>l_id = uuid, l_activity_id = activityId, l_logged_date = date,
                  l_created_at = now\<rparr>)"

definition toggleLog_finish ::
  "DataStore \<Rightarrow> pending_toggle \<Rightarrow> Log response \<Rightarrow> Log option \<times> DataStore" where
  "toggleLog_finish s p r =
     (case p of
        Removing existingLog \<Rightarrow>
          (None, s\<lparr>logs := filter (\<lambda>log. l_id log \<noteq> l_id existingLog) (logs s)\<rparr>)
      | Adding newLog \<Rightarrow>
          (let newLog =
                 (case error r of
                    Some e \<Rightarrow> newLog
                  | None \<Rightarrow>
                      (case data r of
                         Some row \<Rightarrow> newLog\<lparr>l_id := l_id row, l_created_at := l_created_at row\<rparr>
                       | None \<Rightarrow> newLog))
           in (Some newLog, s\<lparr>logs := logs s @ [newLog]\<rparr>)))"

text \<open>
  \<^verbatim>\<open>existingNote\<close> is the first note of the date, an object of the array; assigning its
  fields changes the array's element in place.
\<close>

fun update_first :: "('a \<Rightarrow> bool) \<Rightarrow> ('a \<Rightarrow> 'a) \<Rightarrow> 'a list \<Rightarrow> 'a list" where
  "update_first P f [] = []"
| "update_first P f (x # xs) = (if P x then f x # xs else x # update_first P f xs)"

definition saveNote ::
  "DataStore \<Rightarrow> string \<Rightarrow> string \<Rightarrow> string \<Rightarrow> Date \<Rightarrow> Note response option \<Rightarrow> Note \<times> DataStore" where
  "saveNote s date txt uuid now supabase =
     (case getNoteForDate s date of
        Some existingNote \<Rightarrow>
          (existingNote\<lparr>n_text := txt, n_updated_at := now\<rparr>,
           s\<lparr>notes := update_first (\<lambda>note. n_logged_date note = date)
                         (\<lambda>note. note\<lparr>n_text := txt, n_updated_at := now\<rparr>) (notes s)\<rparr>)
      | None \<Rightarrow>
          (let newNote = \<lparr>n_id = uuid, n_logged_date = date, n_text = txt, n_created_at = now,
                          n_updated_at = now\<rparr>;
               newNote =
                 (if useSupabase s then
                    (case supabase of
                       None \<Rightarrow> newNote
                     | Some r \<Rightarrow>
                         (case error r of
                            Some e \<Rightarrow> newNote
                          | None \<Rightarrow>
                              (case data r of
                                 Some row \<Rightarrow> newNote\<lparr>n_id := n_id row, n_created_at := n_created_at row,
                                                     n_updated_at := n_updated_at row\<rparr>
                               | None \<Rightarrow> newNote)))
                  else newNote)
           in (newNote, s\<lparr>notes := notes s @ [newNote]\<rparr>)))"

definition deleteNote :: "DataStore \<Rightarrow> string \<Rightarrow> 'r response option \<Rightarrow> DataStore" where
  "deleteNote s date supabase = s\<lparr>notes := filter (\<lambda>note. n_logged_date note \<noteq> date) (notes s)\<rparr>"

definition deleteActivity :: "DataStore \<Rightarrow> string \<Rightarrow> 'r response option \<Rightarrow> DataStore" where
  "deleteActivity s activityId supabase =
     s\<lparr>activities := filter (\<lambda>a. a_id a \<noteq> activityId) (activities s),
       logs := filter (\<lambda>l. l_activity_id l \<noteq> activityId) (logs s)\<rparr>"

definition editActivity :: "DataStore \<Rightarrow> string \<Rightarrow> string \<Rightarrow> 'r response option \<Rightarrow> DataStore" where
  "editActivity s activityId newName supabase =
     (case find (\<lambda>a. a_id a = activityId) (activities s) of
        None \<Rightarrow> s
      | Some activity \<Rightarrow>
          s\<lparr>activities := update_first (\<lambda>a. a_id a = activityId) (\<lambda>a. a\<lparr>a_name := newName\<rparr>)
                             (activities s)\<rparr>)"

subsection \<open>Initialisation\<close>

text \<open>
  The replies of a configured client to the three \<^verbatim>\<open>select("*")\<close> queries of
  \<^verbatim>\<open>loadFromSupabase\<close>, and \<open>lc_parse\<close>, the instant \<^verbatim>\<open>new Date(l.logged_date)\<close> of a
  date string.
\<close>

record load_client =
  lc_activities :: "Activity list response"
  lc_logs :: "Log list response"
  lc_notes :: "Note list response"
  lc_parse :: "string \<Rightarrow> Date"

text \<open>
  What \<^verbatim>\<open>loadFromSupabase\<close> throws: the \<open>error\<close> of a reply, or the \<^verbatim>\<open>TypeError\<close> of
  calling \<^verbatim>\<open>.map\<close> on a \<^verbatim>\<open>null\<close> \<open>data\<close>.
\<close>

datatype exn = RemoteError string | TypeError

text \<open>
  The result is the exception thrown, if any, and the store as the assignments made before
  the throw leave it.
\<close>

definition loadFromSupabase :: "DataStore \<Rightarrow> load_client \<Rightarrow> exn option \<times> DataStore" where
  "loadFromSupabase s c =
     (case error (lc_activities c) of
        Some e \<Rightarrow> (Some (RemoteError e), s)
      | None \<Rightarrow>
     (case data (lc_activities c) of
        None \<Rightarrow> (Some TypeError, s)
      | Some activitiesData \<Rightarrow>
     (let s = s\<lparr>activities := activitiesData\<rparr> in
     (case error (lc_logs c) of
        Some e \<Rightarrow> (Some (RemoteError e), s)
      | None \<Rightarrow>
     (case data (lc_logs c) of
        None \<Rightarrow> (Some TypeError, s)
      | Some logsData \<Rightarrow>
     (let s = s\<lparr>logs := logsData\<rparr> in
     (case error (lc_notes c) of
        Some e \<Rightarrow> (Some (RemoteError e), s)
      | None \<Rightarrow>
     (case data (lc_notes c) of
        None \<Rightarrow> (Some TypeError, s)
      | Some notesData \<Rightarrow>
     (let s = s\<lparr>notes := notesData\<rparr> in
      (case map (\<lambda>l. lc_parse c (l_logged_date l)) (logs s) of
         [] \<Rightarrow> (None, s)
       | d # dates \<Rightarrow> (None, s\<lparr>startDate := fold min dates d\<rparr>)))))))))))"

text \<open>
  What the sample generator draws: the identifiers of \<^verbatim>\<open>uuidv4()\<close> for the \<open>k\<close>-th sample
  activity, for the log of the \<open>k\<close>-th activity \<open>i\<close> days ago and for the \<open>k\<close>-th note, the
  value of \<^verbatim>\<open>Math.random()\<close> for activity \<open>k\<close> and day \<open>i\<close>, the clock, and the calendar
  of \<open>format\<close>.
\<close>

record sample_env =
  se_activity_uuid :: "nat \<Rightarrow> string"
  se_log_uuid :: "nat \<Rightarrow> nat \<Rightarrow> string"
  se_note_uuid :: "nat \<Rightarrow> string"
  se_random :: "nat \<Rightarrow> nat \<Rightarrow> real"
  se_now :: Date
  se_cal :: "int \<Rightarrow> string"

definition sampleActivities :: "string list" where
  "sampleActivities =
     [''Exercise'', ''Reading'', ''Music'', ''Work'', ''Friends'', ''Family'',
      ''Something Different'']"

definition sampleNotes :: "(int \<times> string) list" where
  "sampleNotes =
     [(0, ''Feeling productive today!''), (2, ''Started a new project''),
      (5, ''Great workout session'')]"

definition initializeSampleData :: "DataStore \<Rightarrow> sample_env \<Rightarrow> DataStore" where
  "initializeSampleData s env =
     (let s = s\<lparr>activities := activities s @
                 map (\<lambda>(index, name).
                        \<lparr>a_id = se_activity_uuid env index, a_name = name,
                         a_created_at = se_now env, a_order_index = int index\<rparr>)
                     (enumerate 0 sampleActivities)\<rparr>;
          today = se_now env;
          s = s\<lparr>logs := logs s @
                 concat (map (\<lambda>(k, activity).
                   concat (map (\<lambda>i.
                     if se_random env k i > 0.6 then
                       [\<lparr>l_id = se_log_uuid env k i, l_activity_id = a_id activity,
                         l_logged_date = format (se_cal env) (subDays today (int i)),
                         l_created_at = se_now env\<rparr>]
                     else []) [0..<30])) (enumerate 0 (activities s)))\<rparr>;
          s = s\<lparr>notes := notes s @
                 map (\<lambda>(k, (daysAgo, txt)).
                        \<lparr>n_id = se_note_uuid env k,
                         n_logged_date = format (se_cal env) (subDays today daysAgo),
                         n_text = txt, n_created_at = se_now env, n_updated_at = se_now env\<rparr>)
                     (enumerate 0 sampleNotes)\<rparr>
      in s)"

text \<open>
  \<open>supabase\<close> is \<open>None\<close> when the module constant is \<^verbatim>\<open>null\<close> and the client's replies
  otherwise.
\<close>

definition initialize :: "DataStore \<Rightarrow> load_client option \<Rightarrow> sample_env \<Rightarrow> DataStore" where
  "initialize s supabase env =
     (if initialized s then s
      else
        (case (if useSupabase s then supabase else None) of
           Some c \<Rightarrow>
             (case loadFromSupabase s c of
                (None, s') \<Rightarrow> s'\<lparr>initialized := True\<rparr>
              | (Some e, s') \<Rightarrow>
                  (initializeSampleData (s'\<lparr>useSupabase := False\<rparr>) env)\<lparr>initialized := True\<rparr>)
         | None \<Rightarrow> (initializeSampleData s env)\<lparr>initialized := True\<rparr>))"

section \<open>The view model (hooks/useTracker.ts)\<close>

definition VISIBLE_DAYS :: int where
  "VISIBLE_DAYS = 7"

text \<open>The React state of the hook.\<close>

record Tracker =
  t_activities :: "Activity list"
  t_logs :: "Log list"
  t_notes :: "Note list"
  isLoading :: bool
  viewStartDate :: Date

definition useTracker_initial :: "Date \<Rightarrow> Tracker" where
  "useTracker_initial now =
     \<lparr>t_activities = [], t_logs = [], t_notes = [], isLoading = True,
      viewStartDate = subDays (startOfDay now) (VISIBLE_DAYS - 1)\<rparr>"

definition init :: "Tracker \<times> DataStore \<Rightarrow> load_client option \<Rightarrow> sample_env \<Rightarrow> Tracker \<times> DataStore" where
  "init ts supabase env =
     (let (t, s) = ts; s = initialize s supabase env
      in (t\<lparr>t_activities := getActivities s, t_logs := getLogs s, t_notes := getNotes s,
            isLoading := False\<rparr>, s))"

definition visibleDates :: "(int \<Rightarrow> string) \<Rightarrow> Date \<Rightarrow> string list" where
  "visibleDates cal viewStart =
     map (\<lambda>i. format cal (addDays viewStart (int i))) [0..<nat VISIBLE_DAYS]"

definition allDates :: "(int \<Rightarrow> string) \<Rightarrow> Date \<Rightarrow> Date \<Rightarrow> string list" where
  "allDates cal today start =
     (let totalDays = differenceInDays today start + 1
      in map (\<lambda>i. format cal (subDays today (int i))) [0..<nat totalDays])"

definition canGoBack :: "Date \<Rightarrow> Date \<Rightarrow> bool" where
  "canGoBack viewStart start = (viewStart > start)"

definition canGoForward :: "Date \<Rightarrow> Date \<Rightarrow> bool" where
  "canGoForward viewStart today =
     (let lastVisibleDate = addDays viewStart (VISIBLE_DAYS - 1) in lastVisibleDate < today)"

definition goBack :: "Date \<Rightarrow> Date \<Rightarrow> Date" where
  "goBack viewStart start =
     (if canGoBack viewStart start then
        (let newDate = subDays viewStart VISIBLE_DAYS
         in if newDate < start then start else newDate)
      else viewStart)"

definition goForward :: "Date \<Rightarrow> Date \<Rightarrow> Date" where
  "goForward viewStart today =
     (if canGoForward viewStart today then
        (let newDate = addDays viewStart VISIBLE_DAYS;
             maxStartDate = subDays today (VISIBLE_DAYS - 1)
         in if newDate > maxStartDate then maxStartDate else newDate)
      else viewStart)"

text \<open>
  The mutation handlers of the hook call the store and publish its collections again. They
  share the store's names and are prefixed here.

  \<^verbatim>\<open>String.prototype.trim\<close> belongs to the language: it removes the white space and the
  line terminators of ECMAScript, among them U+00A0, U+FEFF, U+2028, U+2029 and the
  Unicode space separators, from both ends of a text. The handlers that call it take it as
  the parameter \<open>trim\<close>; a text is truthy when it is not empty.
\<close>

definition useTracker_toggleLog ::
  "Tracker \<times> DataStore \<Rightarrow> string \<Rightarrow> string \<Rightarrow> string \<Rightarrow> Date \<Rightarrow> Log response option
     \<Rightarrow> Tracker \<times> DataStore" where
  "useTracker_toggleLog ts activityId date uuid now supabase =
     (let (t, s) = ts; (r, s) = toggleLog s activityId date uuid now supabase
      in (t\<lparr>t_logs := getLogs s\<rparr>, s))"

definition useTracker_addActivity ::
  "(string \<Rightarrow> string) \<Rightarrow> Tracker \<times> DataStore \<Rightarrow> string \<Rightarrow> string \<Rightarrow> Date
     \<Rightarrow> Activity response option \<Rightarrow> Tracker \<times> DataStore" where
  "useTracker_addActivity trim ts name uuid now supabase =
     (let (t, s) = ts
      in if trim name \<noteq> [] then
           (let (r, s) = addActivity s (trim name) uuid now supabase
            in (t\<lparr>t_activities := getActivities s\<rparr>, s))
         else (t, s))"

definition useTracker_deleteActivity ::
  "Tracker \<times> DataStore \<Rightarrow> string \<Rightarrow> 'r response option \<Rightarrow> Tracker \<times> DataStore" where
  "useTracker_deleteActivity ts activityId supabase =
     (let (t, s) = ts; s = deleteActivity s activityId supabase
      in (t\<lparr>t_activities := getActivities s, t_logs := getLogs s\<rparr>, s))"

definition useTracker_editActivity ::
  "(string \<Rightarrow> string) \<Rightarrow> Tracker \<times> DataStore \<Rightarrow> string \<Rightarrow> string \<Rightarrow> 'r response option
     \<Rightarrow> Tracker \<times> DataStore" where
  "useTracker_editActivity trim ts activityId newName supabase =
     (let (t, s) = ts
      in if trim newName \<noteq> [] then
           (let s = editActivity s activityId (trim newName) supabase
            in (t\<lparr>t_activities := getActivities s\<rparr>, s))
         else (t, s))"

definition isLogged :: "Tracker \<Rightarrow> string \<Rightarrow> string \<Rightarrow> bool" where
  "isLogged t activityId date =
     list_ex (\<lambda>log. l_activity_id log = activityId \<and> l_logged_date log = date) (t_logs t)"

definition useTracker_getNoteForDate :: "Tracker \<Rightarrow> string \<Rightarrow> Note option" where
  "useTracker_getNoteForDate t date = find (\<lambda>note. n_logged_date note = date) (t_notes t)"

definition useTracker_saveNote ::
  "(string \<Rightarrow> string) \<Rightarrow> Tracker \<times> DataStore \<Rightarrow> string \<Rightarrow> string \<Rightarrow> string \<Rightarrow> Date
     \<Rightarrow> Note response option \<Rightarrow> Tracker \<times> DataStore" where
  "useTracker_saveNote trim ts date txt uuid now supabase =
     (let (t, s) = ts;
          s = (if trim txt \<noteq> [] then snd (saveNote s date (trim txt) uuid now supabase)
               else deleteNote s date supabase)
      in (t\<lparr>t_notes := getNotes s\<rparr>, s))"

section \<open>Observations and runs\<close>

text \<open>The logs of the store for one activity and one date.\<close>

definition logsOfPair :: "DataStore \<Rightarrow> string \<Rightarrow> string \<Rightarrow> Log list" where
  "logsOfPair s activityId date =
     filter (\<lambda>log. l_activity_id log = activityId \<and> l_logged_date log = date) (logs s)"

text \<open>
  Two calls of \<^verbatim>\<open>toggleLog\<close> for the same pair on a store with a client, the second begun
  while the first awaits its reply (two clicks on a cell): both look the log up in the
  store as it is before either has changed it, then the first finishes, then the second.
  Each call has its own identifier, clock and reply.
\<close>

definition toggleLog_overlapping ::
  "DataStore \<Rightarrow> string \<Rightarrow> string \<Rightarrow> string \<times> Date \<times> Log response
     \<Rightarrow> string \<times> Date \<times> Log response \<Rightarrow> DataStore" where
  "toggleLog_overlapping s activityId date first second =
     (let (uuid1, now1, r1) = first; (uuid2, now2, r2) = second;
          p1 = toggleLog_begin s activityId date uuid1 now1;
          p2 = toggleLog_begin s activityId date uuid2 now2;
          s = snd (toggleLog_finish s p1 r1);
          s = snd (toggleLog_finish s p2 r2)
      in s)"

text \<open>
  Calls of the hook's \<^verbatim>\<open>toggleLog\<close> for the same pair made in turn, each begun after the
  one before it has returned.
\<close>

fun toggleLogs_in_turn ::
  "Tracker \<times> DataStore \<Rightarrow> string \<Rightarrow> string \<Rightarrow> (string \<times> Date \<times> Log response option) list
     \<Rightarrow> Tracker \<times> DataStore" where
  "toggleLogs_in_turn ts activityId date [] = ts"
| "toggleLogs_in_turn ts activityId date ((uuid, now, supabase) # ws) =
     toggleLogs_in_turn (useTracker_toggleLog ts activityId date uuid now supabase)
       activityId date ws"

text \<open>A store with two activities, five logs of the first and two of the second.\<close>

definition cascade_example :: DataStore where
  "cascade_example =
     \<lparr>activities =
        [\<lparr>a_id = ''a1'', a_name = ''Exercise'', a_created_at = 0, a_order_index = 0\<rparr>,
         \<lparr>a_id = ''a2'', a_name = ''Reading'', a_created_at = 0, a_order_index = 1\<rparr>],
      logs =
        [\<lparr>l_id = ''l1'', l_activity_id = ''a1'', l_logged_date = ''2024-01-01'', l_created_at = 1\<rparr>,
         \<lparr>l_id = ''l2'', l_activity_id = ''a2'', l_logged_date = ''2024-01-01'', l_created_at = 2\<rparr>,
         \<lparr>l_id = ''l3'', l_activity_id = ''a1'', l_logged_date = ''2024-01-02'', l_created_at = 3\<rparr>,
         \<lparr>l_id = ''l4'', l_activity_id = ''a1'', l_logged_date = ''2024-01-03'', l_created_at = 4\<rparr>,
         \<lparr>l_id = ''l5'', l_activity_id = ''a2'', l_logged_date = ''2024-01-03'', l_created_at = 5\<rparr>,
         \<lparr>l_id = ''l6'', l_activity_id = ''a1'', l_logged_date = ''2024-01-04'', l_created_at = 6\<rparr>,
         \<lparr>l_id = ''l7'', l_activity_id = ''a1'', l_logged_date = ''2024-01-05'', l_created_at = 7\<rparr>],
      notes = [], startDate = 0, initialized = True, useSupabase = True\<rparr>"

text \<open>The reply of a client whose request failed.\<close>

definition offline :: "'a response" where
  "offline = \<lparr>data = None, error = Some ''Failed to fetch''\<rparr>"

text \<open>
  The values the hook's \<open>viewStartDate\<close> can take on a render whose \<open>today\<close> is given: the
  initial value, what \<^verbatim>\<open>goBack\<close> and \<^verbatim>\<open>goForward\<close> make of a value (the store's start
  date may differ between calls), and a value kept into a later day.
\<close>

inductive view_reachable :: "Date \<Rightarrow> Date \<Rightarrow> bool" where
  reach_initial: "view_reachable (startOfDay now) (viewStartDate (useTracker_initial now))"
| reach_back: "view_reachable today v \<Longrightarrow> view_reachable today (goBack v start)"
| reach_forward: "view_reachable today v \<Longrightarrow> view_reachable today (goForward v today)"
| reach_later: "view_reachable today v \<Longrightarrow> today \<le> today' \<Longrightarrow> view_reachable today' v"

code_pred view_reachable .

text \<open>
  The replies of a client whose only log is of day 38 (1970-02-08, in a zone on UTC).
\<close>

definition recent_client :: load_client where
  "recent_client =
     \<lparr>lc_activities =
        \<lparr>data = Some [\<lparr>a_id = ''a1'', a_name = ''Exercise'', a_created_at = 0, a_order_index = 0\<rparr>],
         error = None\<rparr>,
      lc_logs =
        \<lparr>data = Some [\<lparr>l_id = ''l1'', l_activity_id = ''a1'', l_logged_date = ''1970-02-08'',
                       l_created_at = 38 * MS_PER_DAY\<rparr>],
         error = None\<rparr>,
      lc_notes = \<lparr>data = Some [], error = None\<rparr>,
      lc_parse = (\<lambda>d. if d = ''1970-02-08'' then 38 * MS_PER_DAY else 0)\<rparr>"

section \<open>Properties\<close>

subsection \<open>Toggling a log\<close>

lemma find_None_filter: "find P xs = None \<longleftrightarrow> filter P xs = []"
  by (induction xs) auto

lemma find_Some_filter: "find P xs = Some x \<Longrightarrow> \<exists>ys. filter P xs = x # ys"
  by (induction xs) (auto split: if_splits)

lemma filter_single_removed:
  assumes "length (filter P xs) = 1" and "find P xs = Some x"
  shows "filter P (filter (\<lambda>y. f y \<noteq> f x) xs) = []"
proof -
  from find_Some_filter[OF assms(2)] obtain ys where ys: "filter P xs = x # ys" by blast
  with assms(1) have "filter P xs = [x]" by simp
  then have "filter (\<lambda>y. f y \<noteq> f x) (filter P xs) = []" by simp
  then show ?thesis by (simp add: conj_commute)
qed

lemma toggleLog_absent:
  assumes "getLogForActivityAndDate s a d = None"
  shows "\<exists>l. toggleLog s a d uuid now supabase = (Some l, s\<lparr>logs := logs s @ [l]\<rparr>)
           \<and> l_activity_id l = a \<and> l_logged_date l = d"
  using assms
  by (auto simp: toggleLog_def Let_def split: option.splits)

lemma toggleLog_present:
  assumes "getLogForActivityAndDate s a d = Some x"
  shows "toggleLog s a d uuid now supabase = (None, s\<lparr>logs := filter (\<lambda>log. l_id log \<noteq> l_id x) (logs s)\<rparr>)"
  using assms by (simp add: toggleLog_def)

lemma toggleLog_flip:
  assumes "length (logsOfPair s a d) \<le> 1"
  shows "length (logsOfPair (snd (toggleLog s a d uuid now supabase)) a d) = 1 - length (logsOfPair s a d)"
proof (cases "getLogForActivityAndDate s a d")
  case None
  then have "logsOfPair s a d = []"
    by (simp add: getLogForActivityAndDate_def logsOfPair_def find_None_filter)
  moreover from toggleLog_absent[OF None, of uuid now supabase]
  have "length (logsOfPair (snd (toggleLog s a d uuid now supabase)) a d) = Suc (length (logsOfPair s a d))"
    by (auto simp: logsOfPair_def)
  ultimately show ?thesis by simp
next
  case (Some x)
  then have "logsOfPair s a d \<noteq> []"
    using find_None_filter[of "\<lambda>log. l_activity_id log = a \<and> l_logged_date log = d" "logs s"]
    by (simp add: getLogForActivityAndDate_def logsOfPair_def)
  with assms have one: "length (logsOfPair s a d) = 1"
    by (cases "logsOfPair s a d") auto
  then have "logsOfPair (snd (toggleLog s a d uuid now supabase)) a d = []"
    using Some filter_single_removed[of "\<lambda>log. l_activity_id log = a \<and> l_logged_date log = d" "logs s" x l_id]
    by (simp add: toggleLog_present[OF Some] logsOfPair_def getLogForActivityAndDate_def)
  with one show ?thesis by simp
qed

lemma toggleLogs_in_turn_parity:
  assumes "length (logsOfPair s a d) \<le> 1" and "t_logs t = getLogs s"
  shows "length (logsOfPair (snd (toggleLogs_in_turn (t, s) a d ws)) a d) = (length (logsOfPair s a d) + length ws) mod 2
       \<and> t_logs (fst (toggleLogs_in_turn (t, s) a d ws)) = getLogs (snd (toggleLogs_in_turn (t, s) a d ws))"
  using assms
proof (induction ws arbitrary: t s)
  case Nil
  then show ?case by (cases "logsOfPair s a d") auto
next
  case (Cons w ws)
  obtain uuid now supabase where w: "w = (uuid, now, supabase)" by (cases w) auto
  obtain t' s' where step: "useTracker_toggleLog (t, s) a d uuid now supabase = (t', s')" by fastforce
  then have s': "s' = snd (toggleLog s a d uuid now supabase)" and t': "t_logs t' = getLogs s'"
    by (auto simp: useTracker_toggleLog_def Let_def split: prod.splits)
  from toggleLog_flip[OF Cons.prems(1), of uuid now supabase] s'
  have flip: "length (logsOfPair s' a d) = 1 - length (logsOfPair s a d)" by simp
  then have le: "length (logsOfPair s' a d) \<le> 1" by simp
  from Cons.IH[OF le t'] w step flip Cons.prems(1)
  show ?case by (auto simp: mod_Suc split: if_splits) presburger+
qed

text \<open>
  Calls made in turn keep the toggle invariant. From a store with no log for the pair and
  a hook that has published the store's logs, the store holds one log of the pair after an
  odd number of such calls and none after an even number, \<^verbatim>\<open>isLogged\<close> says so, and the
  next such call flips the presence.
\<close>

lemma toggleLogs_in_turn_invariant:
  assumes "getLogForActivityAndDate s a d = None" and "t_logs t = getLogs s"
      and "toggleLogs_in_turn (t, s) a d ws = (t', s')"
  shows "length (logsOfPair s' a d) = (if odd (length ws) then 1 else 0)
       \<and> isLogged t' a d = odd (length ws)
       \<and> (if odd (length ws)
          then fst (toggleLog s' a d uuid now supabase) = None
             \<and> logsOfPair (snd (toggleLog s' a d uuid now supabase)) a d = []
          else (\<exists>l. fst (toggleLog s' a d uuid now supabase) = Some l
                  \<and> l_activity_id l = a \<and> l_logged_date l = d
                  \<and> logsOfPair (snd (toggleLog s' a d uuid now supabase)) a d = [l]))"
proof -
  let ?P = "\<lambda>log. l_activity_id log = a \<and> l_logged_date log = d"
  from assms(1) have empty: "logsOfPair s a d = []"
    by (simp add: getLogForActivityAndDate_def logsOfPair_def find_None_filter)
  then have le: "length (logsOfPair s a d) \<le> 1" by simp
  from toggleLogs_in_turn_parity[OF le assms(2), of ws] assms(3) empty
  have len: "length (logsOfPair s' a d) = length ws mod 2" and sync: "t_logs t' = getLogs s'"
    by simp_all
  have count: "length (logsOfPair s' a d) = (if odd (length ws) then 1 else 0)"
    using len by (simp add: odd_iff_mod_2_eq_one)
  have logged: "isLogged t' a d = odd (length ws)"
  proof -
    have "isLogged t' a d \<longleftrightarrow> logsOfPair s' a d \<noteq> []"
      by (simp add: isLogged_def sync getLogs_def logsOfPair_def list_ex_iff filter_empty_conv)
    with count show ?thesis by (auto split: if_splits)
  qed
  have next_call: "(if odd (length ws)
          then fst (toggleLog s' a d uuid now supabase) = None
             \<and> logsOfPair (snd (toggleLog s' a d uuid now supabase)) a d = []
          else (\<exists>l. fst (toggleLog s' a d uuid now supabase) = Some l
                  \<and> l_activity_id l = a \<and> l_logged_date l = d
                  \<and> logsOfPair (snd (toggleLog s' a d uuid now supabase)) a d = [l]))"
  proof (cases "odd (length ws)")
    case True
    with count have one: "length (logsOfPair s' a d) = 1" by simp
    then have "find ?P (logs s') \<noteq> None"
      by (auto simp: find_None_filter logsOfPair_def)
    then obtain x where x: "getLogForActivityAndDate s' a d = Some x"
      by (auto simp: getLogForActivityAndDate_def)
    from one have "length (logsOfPair s' a d) \<le> 1" by simp
    from toggleLog_flip[OF this, of uuid now supabase] one
    have "logsOfPair (snd (toggleLog s' a d uuid now supabase)) a d = []" by simp
    with True toggleLog_present[OF x, of uuid now supabase] show ?thesis by simp
  next
    case False
    with count have none: "logsOfPair s' a d = []" by simp
    then have "getLogForActivityAndDate s' a d = None"
      by (simp add: getLogForActivityAndDate_def logsOfPair_def find_None_filter)
    from toggleLog_absent[OF this, of uuid now supabase] obtain l where
      l: "toggleLog s' a d uuid now supabase = (Some l, s'\<lparr>logs := logs s' @ [l]\<rparr>)"
         "l_activity_id l = a" "l_logged_date l = d" by blast
    with none have "logsOfPair (snd (toggleLog s' a d uuid now supabase)) a d = [l]"
      by (simp add: logsOfPair_def)
    with False l show ?thesis by simp
  qed
  from count logged next_call show ?thesis by blast
qed

text \<open>A call on a store with a client is its two steps, when nothing runs in between.\<close>

lemma toggleLog_split:
  "useSupabase s \<Longrightarrow>
     toggleLog s a d uuid now (Some r) = toggleLog_finish s (toggleLog_begin s a d uuid now) r"
  by (simp add: toggleLog_def toggleLog_begin_def toggleLog_finish_def Let_def
      split: option.splits)

lemma toggleLog_overlapping_two:
  assumes "getLogForActivityAndDate s a d = None"
  shows "length (logsOfPair (toggleLog_overlapping s a d (uuid1, now1, r1) (uuid2, now2, r2)) a d) = 2"
proof -
  from assms have "logsOfPair s a d = []"
    by (simp add: getLogForActivityAndDate_def logsOfPair_def find_None_filter)
  with assms show ?thesis
    by (simp add: toggleLog_overlapping_def toggleLog_begin_def toggleLog_finish_def
        logsOfPair_def Let_def split: option.splits)
qed

text \<open>
  C1. After an even number of \<^verbatim>\<open>toggleLog(a, d)\<close> calls from a state with no log for the
  pair, no log of the pair should exist. The code breaks this when calls overlap: on a store
  with a client and no log for the pair, two calls of which the second begins while the
  first awaits its reply both find no log and both append one. The remote insert of the
  first succeeds and the store adopts the remote identifier; that of the second fails on
  the remote uniqueness constraint and its log is appended all the same. After the two
  calls the store holds two logs of the pair, and \<^verbatim>\<open>isLogged\<close> on the published logs
  holds.
\<close>

theorem toggleLog_overlapping_duplicates:
  "useSupabase cascade_example
   \<and> getLogForActivityAndDate cascade_example ''a2'' ''2024-01-02'' = None
   \<and> logsOfPair
        (toggleLog_overlapping cascade_example ''a2'' ''2024-01-02''
           (''u1'', 1,
            \<lparr>data = Some \<lparr>l_id = ''r1'', l_activity_id = ''a2'', l_logged_date = ''2024-01-02'',
                           l_created_at = 1\<rparr>,
             error = None\<rparr>)
           (''u2'', 2,
            \<lparr>data = None, error = Some ''duplicate key value violates unique constraint''\<rparr>))
        ''a2'' ''2024-01-02''
      = [\<lparr>l_id = ''r1'', l_activity_id = ''a2'', l_logged_date = ''2024-01-02'', l_created_at = 1\<rparr>,
         \<lparr>l_id = ''u2'', l_activity_id = ''a2'', l_logged_date = ''2024-01-02'', l_created_at = 2\<rparr>]
   \<and> isLogged
        (useTracker_initial 0
           \<lparr>t_logs := getLogs
              (toggleLog_overlapping cascade_example ''a2'' ''2024-01-02''
                 (''u1'', 1,
                  \<lparr>data = Some \<lparr>l_id = ''r1'', l_activity_id = ''a2'', l_logged_date = ''2024-01-02'',
                                 l_created_at = 1\<rparr>,
                   error = None\<rparr>)
                 (''u2'', 2,
                  \<lparr>data = None,
                   error = Some ''duplicate key value violates unique constraint''\<rparr>))\<rparr>)
        ''a2'' ''2024-01-02''"
  by (simp add: toggleLog_overlapping_def toggleLog_begin_def toggleLog_finish_def
      getLogForActivityAndDate_def logsOfPair_def cascade_example_def isLogged_def getLogs_def
      Let_def)

subsection \<open>Order indices\<close>

lemma fold_max_ge: "(a::int) \<le> fold max xs a"
proof (induction xs arbitrary: a)
  case Nil
  show ?case by simp
next
  case (Cons x xs)
  have "a \<le> max x a" by simp
  also have "\<dots> \<le> fold max xs (max x a)" by (rule Cons.IH)
  finally show ?case by simp
qed

lemma fold_max_upper: "x \<in> set xs \<Longrightarrow> (x::int) \<le> fold max xs a"
proof (induction xs arbitrary: a)
  case Nil
  then show ?case by simp
next
  case (Cons y ys)
  show ?case
  proof (cases "x = y")
    case True
    have "x \<le> max y a" using True by simp
    also have "\<dots> \<le> fold max ys (max y a)" by (rule fold_max_ge)
    finally show ?thesis by simp
  next
    case False
    with Cons.prems have "x \<in> set ys" by simp
    from Cons.IH[OF this] show ?thesis by simp
  qed
qed

lemma maxOrder_upper: "x \<in> set as \<Longrightarrow> a_order_index x \<le> maxOrder as"
  by (simp add: maxOrder_def fold_max_upper)

lemma addActivity_index:
  "a_order_index (fst (addActivity s name uuid now supabase)) = maxOrder (activities s) + 1"
  by (simp add: addActivity_def Let_def split: option.splits)

lemma addActivity_activities:
  "activities (snd (addActivity s name uuid now supabase)) =
     activities s @ [fst (addActivity s name uuid now supabase)]"
  by (simp add: addActivity_def Let_def split: option.splits)

text \<open>
  C2, as amended. \<^verbatim>\<open>addActivity\<close> appends an activity whose order index is greater than
  that of every activity of the store, and 0 when the store has none. After
  \<^verbatim>\<open>deleteActivity\<close>, the next \<^verbatim>\<open>addActivity\<close> does not give out the index of a deleted
  activity as long as a remaining activity has an index at least as large.
\<close>

theorem addActivity_order_index:
  "(\<forall>x \<in> set (activities s).
      a_order_index x < a_order_index (fst (addActivity s name uuid now supabase)))
   \<and> (activities s = [] \<longrightarrow> a_order_index (fst (addActivity s name uuid now supabase)) = 0)
   \<and> activities (snd (addActivity s name uuid now supabase)) =
       activities s @ [fst (addActivity s name uuid now supabase)]
   \<and> (\<forall>x \<in> set (activities s). \<forall>y \<in> set (activities s).
        a_id x = activityId \<and> a_id y \<noteq> activityId \<and> a_order_index x \<le> a_order_index y \<longrightarrow>
        a_order_index (fst (addActivity (deleteActivity s activityId r) name uuid now supabase))
          \<noteq> a_order_index x)"
proof -
  have greater: "a_order_index x < a_order_index (fst (addActivity s' name uuid now supabase))"
    if "x \<in> set (activities s')" for x s'
    using maxOrder_upper[OF that] by (simp add: addActivity_index)
  have first: "a_order_index (fst (addActivity s name uuid now supabase)) = 0" if "activities s = []"
    using that by (simp add: addActivity_index maxOrder_def)
  have fresh: "a_order_index (fst (addActivity (deleteActivity s activityId r) name uuid now supabase))
          \<noteq> a_order_index x"
    if "y \<in> set (activities s)" "a_id y \<noteq> activityId" "a_order_index x \<le> a_order_index y" for x y
  proof -
    from that(1,2) have "y \<in> set (activities (deleteActivity s activityId r))"
      by (simp add: deleteActivity_def)
    from greater[OF this] that(3) show ?thesis by simp
  qed
  from greater first fresh addActivity_activities show ?thesis by blast
qed

theorem addActivity_order_index_witness:
  "a_order_index (fst (addActivity
       \<lparr>activities = [\<lparr>a_id = ''ua'', a_name = ''A'', a_created_at = 1, a_order_index = 0\<rparr>,
                     \<lparr>a_id = ''ub'', a_name = ''B'', a_created_at = 2, a_order_index = 1\<rparr>],
       logs = [], notes = [], startDate = 0, initialized = True, useSupabase = False\<rparr>
       ''C'' ''uc'' 3 None)) = 2
   \<and> a_order_index (fst (addActivity (constructor 0 False) ''A'' ''ua'' 1 None)) = 0
   \<and> a_order_index (fst (addActivity (deleteActivity
       \<lparr>activities = [\<lparr>a_id = ''ua'', a_name = ''A'', a_created_at = 1, a_order_index = 0\<rparr>,
                     \<lparr>a_id = ''ub'', a_name = ''B'', a_created_at = 2, a_order_index = 1\<rparr>],
       logs = [], notes = [], startDate = 0, initialized = True, useSupabase = False\<rparr>
       ''ua'' (None :: unit response option)) ''C'' ''uc'' 3 None)) \<noteq> 0"
  using addActivity_order_index[of
       "\<lparr>activities = [\<lparr>a_id = ''ua'', a_name = ''A'', a_created_at = 1, a_order_index = 0\<rparr>,
                     \<lparr>a_id = ''ub'', a_name = ''B'', a_created_at = 2, a_order_index = 1\<rparr>],
       logs = [], notes = [], startDate = 0, initialized = True, useSupabase = False\<rparr>"
       "''C''" "''uc''" 3 None "''ua''" "None :: unit response option"]
    addActivity_order_index[of "constructor 0 False" "''A''" "''ua''" 1 None]
  by (simp add: addActivity_def maxOrder_def constructor_def deleteActivity_def Let_def)

text \<open>
  Freed indices are not tracked: after adding two activities, deleting the second and adding a
  third, the third gets the order index the deleted one had.
\<close>

theorem addActivity_reuses_freed_index:
  "a_order_index (fst (addActivity (snd (addActivity (constructor 0 False) ''A'' ''ua'' 1 None))
                        ''B'' ''ub'' 2 None)) = 1
   \<and> a_order_index (fst (addActivity
        (deleteActivity
           (snd (addActivity (snd (addActivity (constructor 0 False) ''A'' ''ua'' 1 None))
                   ''B'' ''ub'' 2 None))
           ''ub'' (None :: unit response option))
        ''C'' ''uc'' 3 None)) = 1"
  by (simp add: addActivity_def maxOrder_def constructor_def deleteActivity_def Let_def)

subsection \<open>Notes\<close>

lemma find_None_filter_neg: "find P xs = None \<Longrightarrow> filter (\<lambda>x. \<not> P x) xs = xs"
  by (induction xs) (auto split: if_splits)

lemma find_filter_neg: "find P (filter (\<lambda>x. \<not> P x) xs) = None"
  by (induction xs) auto

text \<open>
  C3. \<^verbatim>\<open>saveNote(d, text)\<close> of the hook with a text whose trimmed form is empty removes
  the notes of \<open>d\<close> and leaves the others as they are; when \<open>d\<close> has no note the store
  is unchanged and no note is created. The hook publishes the store's notes. This holds
  whatever white space \<open>trim\<close> removes.
\<close>

theorem saveNote_blank:
  assumes "trim txt = []"
      and "useTracker_saveNote trim (t, s) d txt uuid now supabase = (t', s')"
  shows "s' = s\<lparr>notes := filter (\<lambda>note. n_logged_date note \<noteq> d) (notes s)\<rparr>
       \<and> getNoteForDate s' d = None
       \<and> (getNoteForDate s d = None \<longrightarrow> s' = s)
       \<and> t_notes t' = notes s'"
proof -
  from assms have s': "s' = s\<lparr>notes := filter (\<lambda>note. n_logged_date note \<noteq> d) (notes s)\<rparr>"
    and t': "t_notes t' = notes s'"
    by (auto simp: useTracker_saveNote_def deleteNote_def getNotes_def Let_def)
  have gone: "getNoteForDate s' d = None"
    by (simp add: s' getNoteForDate_def find_filter_neg)
  have same: "s' = s" if "getNoteForDate s d = None"
    using that find_None_filter_neg[of "\<lambda>note. n_logged_date note = d" "notes s"]
    by (simp add: s' getNoteForDate_def)
  from s' t' gone same show ?thesis by blast
qed

text \<open>
  The two texts of the spec, with the removal of spaces from both ends as \<open>trim\<close>, which
  is what \<^verbatim>\<open>String.prototype.trim\<close> does on them.
\<close>

theorem saveNote_blank_witness:
  "rev (dropWhile (\<lambda>c. c = CHR '' '') (rev (dropWhile (\<lambda>c. c = CHR '' '') ''  ''))) = []
   \<and> rev (dropWhile (\<lambda>c. c = CHR '' '') (rev (dropWhile (\<lambda>c. c = CHR '' '') []))) = []
   \<and> getNoteForDate (constructor 0 False) ''2024-01-01'' = None
   \<and> useTracker_saveNote
        (\<lambda>t. rev (dropWhile (\<lambda>c. c = CHR '' '') (rev (dropWhile (\<lambda>c. c = CHR '' '') t))))
        (useTracker_initial 0, constructor 0 False) ''2024-01-01'' ''  '' ''u1'' 1 None
       = (useTracker_initial 0, constructor 0 False)
   \<and> useTracker_saveNote
        (\<lambda>t. rev (dropWhile (\<lambda>c. c = CHR '' '') (rev (dropWhile (\<lambda>c. c = CHR '' '') t))))
        (useTracker_initial 0,
         constructor 0 False\<lparr>notes := [\<lparr>n_id = ''n1'', n_logged_date = ''2024-01-01'', n_text = ''hello'',
                                          n_created_at = 0, n_updated_at = 0\<rparr>]\<rparr>)
        ''2024-01-01'' [] ''u1'' 1 None
       = (useTracker_initial 0, constructor 0 False)"
proof -
  let ?trim = "\<lambda>t. rev (dropWhile (\<lambda>c. c = CHR '' '') (rev (dropWhile (\<lambda>c. c = CHR '' '') t)))"
  have h1: "?trim ''  '' = []" and h1': "?trim [] = []" by simp_all
  have h0: "getNoteForDate (constructor 0 False) ''2024-01-01'' = None"
    by (simp add: getNoteForDate_def constructor_def)
  have h2: "useTracker_saveNote ?trim (useTracker_initial 0, constructor 0 False)
              ''2024-01-01'' ''  '' ''u1'' 1 None
       = (useTracker_initial 0, constructor 0 False)"
    by (simp add: useTracker_saveNote_def deleteNote_def getNotes_def constructor_def
        useTracker_initial_def)
  have h3: "useTracker_saveNote ?trim
        (useTracker_initial 0,
         constructor 0 False\<lparr>notes := [\<lparr>n_id = ''n1'', n_logged_date = ''2024-01-01'', n_text = ''hello'',
                                          n_created_at = 0, n_updated_at = 0\<rparr>]\<rparr>)
        ''2024-01-01'' [] ''u1'' 1 None
       = (useTracker_initial 0, constructor 0 False)"
    by (simp add: useTracker_saveNote_def deleteNote_def getNotes_def constructor_def
        useTracker_initial_def)
  from saveNote_blank[of ?trim, OF h1 h2] saveNote_blank[of ?trim, OF h1' h3] h0 h1 h1' h2 h3
  show ?thesis by simp
qed

text \<open>
  \<^verbatim>\<open>DataStore.saveNote\<close> itself does not look at the text: the trimming and the
  delegation to \<^verbatim>\<open>deleteNote\<close> are the hook's.
\<close>

lemma store_saveNote_keeps_blank:
  "getNoteForDate s d = None \<Longrightarrow>
     \<exists>n. saveNote s d txt uuid now supabase = (n, s\<lparr>notes := notes s @ [n]\<rparr>) \<and> n_text n = txt"
  by (auto simp: saveNote_def Let_def split: option.splits)

subsection \<open>Cascading delete\<close>

text \<open>
  C7. \<^verbatim>\<open>deleteActivity(a)\<close> leaves no log of activity \<open>a\<close>, and the logs of every other
  activity are what they were: the logs that remain are the logs of the other activities,
  in their order.
\<close>

theorem deleteActivity_cascade:
  "getLogsForActivity (deleteActivity s a r) a = []
   \<and> (b \<noteq> a \<longrightarrow> getLogsForActivity (deleteActivity s a r) b = getLogsForActivity s b)
   \<and> logs (deleteActivity s a r) = filter (\<lambda>l. l_activity_id l \<noteq> a) (logs s)"
proof -
  have 1: "getLogsForActivity (deleteActivity s a r) a = []"
    by (simp add: getLogsForActivity_def deleteActivity_def)
  have 2: "getLogsForActivity (deleteActivity s a r) b = getLogsForActivity s b" if "b \<noteq> a"
    using that by (auto simp: getLogsForActivity_def deleteActivity_def intro!: filter_cong)
  have 3: "logs (deleteActivity s a r) = filter (\<lambda>l. l_activity_id l \<noteq> a) (logs s)"
    by (simp add: deleteActivity_def)
  from 1 2 3 show ?thesis by blast
qed

theorem deleteActivity_cascade_witness:
  "''a2'' \<noteq> ''a1''
   \<and> length (getLogsForActivity cascade_example ''a1'') = 5
   \<and> getLogsForActivity (deleteActivity cascade_example ''a1'' (Some (offline :: unit response))) ''a1'' = []
   \<and> getLogsForActivity (deleteActivity cascade_example ''a1'' (Some (offline :: unit response))) ''a2''
       = [\<lparr>l_id = ''l2'', l_activity_id = ''a2'', l_logged_date = ''2024-01-01'', l_created_at = 2\<rparr>,
          \<lparr>l_id = ''l5'', l_activity_id = ''a2'', l_logged_date = ''2024-01-03'', l_created_at = 5\<rparr>]"
proof -
  have h: "''a2'' \<noteq> ''a1''" by simp
  have five: "length (getLogsForActivity cascade_example ''a1'') = 5"
    by (simp add: getLogsForActivity_def cascade_example_def)
  have before: "getLogsForActivity cascade_example ''a2''
       = [\<lparr>l_id = ''l2'', l_activity_id = ''a2'', l_logged_date = ''2024-01-01'', l_created_at = 2\<rparr>,
          \<lparr>l_id = ''l5'', l_activity_id = ''a2'', l_logged_date = ''2024-01-03'', l_created_at = 5\<rparr>]"
    by (simp add: getLogsForActivity_def cascade_example_def)
  from deleteActivity_cascade[of cascade_example "''a1''" "Some (offline :: unit response)" "''a2''"]
    h five before
  show ?thesis by simp
qed

subsection \<open>Remote failures\<close>

lemma find_snoc:
  "find P xs = None \<Longrightarrow> find P (xs @ [x]) = (if P x then Some x else None)"
  by (induction xs) (auto split: if_splits)

lemma find_update_first:
  "find P xs = Some x \<Longrightarrow> P (f x) \<Longrightarrow> find P (update_first P f xs) = Some (f x)"
  by (induction xs) (auto split: if_splits)

text \<open>
  C8. When the reply of the client carries an error, each of the six mutations makes its
  local change and returns its usual result, which are those of the call without a
  client; nothing is undone and nothing is thrown. \<^verbatim>\<open>addActivity\<close> appends and returns the
  activity with the local identifier, the given name, the clock and the next order index.
  \<^verbatim>\<open>toggleLog\<close> removes the log of the pair and returns \<^verbatim>\<open>null\<close>, or appends and returns
  the log with the local identifier. \<^verbatim>\<open>saveNote\<close> gives the note of the date the new text
  and update time and returns it, or appends and returns the note with the local
  identifier; the note of the date is then the note returned. \<^verbatim>\<open>deleteNote\<close> leaves no
  note of the date. \<^verbatim>\<open>deleteActivity\<close> removes the activity and its logs.
  \<^verbatim>\<open>editActivity\<close> gives the activity the new name, and leaves a store without the
  activity as it is.
\<close>

theorem remote_failure_keeps_local:
  assumes "error r1 \<noteq> None" and "error r2 \<noteq> None" and "error r3 \<noteq> None"
      and "error (r4 :: 'd response) \<noteq> None" and "error (r5 :: 'e response) \<noteq> None"
      and "error (r6 :: 'f response) \<noteq> None"
  shows "addActivity s name uuid now (Some r1) =
           (\<lparr>a_id = uuid, a_name = name, a_created_at = now,
             a_order_index = maxOrder (activities s) + 1\<rparr>,
            s\<lparr>activities := activities s @
               [\<lparr>a_id = uuid, a_name = name, a_created_at = now,
                 a_order_index = maxOrder (activities s) + 1\<rparr>]\<rparr>)
       \<and> addActivity s name uuid now (Some r1) = addActivity s name uuid now None
       \<and> toggleLog s activityId date uuid now (Some r2) =
           (case getLogForActivityAndDate s activityId date of
              Some existingLog \<Rightarrow>
                (None, s\<lparr>logs := filter (\<lambda>log. l_id log \<noteq> l_id existingLog) (logs s)\<rparr>)
            | None \<Rightarrow>
                (Some \<lparr>l_id = uuid, l_activity_id = activityId, l_logged_date = date,
                       l_created_at = now\<rparr>,
                 s\<lparr>logs := logs s @
                    [\<lparr>l_id = uuid, l_activity_id = activityId, l_logged_date = date,
                      l_created_at = now\<rparr>]\<rparr>))
       \<and> toggleLog s activityId date uuid now (Some r2) = toggleLog s activityId date uuid now None
       \<and> saveNote s date content uuid now (Some r3) =
           (case getNoteForDate s date of
              Some existingNote \<Rightarrow>
                (existingNote\<lparr>n_text := content, n_updated_at := now\<rparr>,
                 s\<lparr>notes := update_first (\<lambda>note. n_logged_date note = date)
                               (\<lambda>note. note\<lparr>n_text := content, n_updated_at := now\<rparr>) (notes s)\<rparr>)
            | None \<Rightarrow>
                (\<lparr>n_id = uuid, n_logged_date = date, n_text = content, n_created_at = now,
                  n_updated_at = now\<rparr>,
                 s\<lparr>notes := notes s @
                    [\<lparr>n_id = uuid, n_logged_date = date, n_text = content, n_created_at = now,
                      n_updated_at = now\<rparr>]\<rparr>))
       \<and> getNoteForDate (snd (saveNote s date content uuid now (Some r3))) date
           = Some (fst (saveNote s date content uuid now (Some r3)))
       \<and> n_text (fst (saveNote s date content uuid now (Some r3))) = content
       \<and> saveNote s date content uuid now (Some r3) = saveNote s date content uuid now None
       \<and> deleteNote s date (Some r4) = s\<lparr>notes := filter (\<lambda>note. n_logged_date note \<noteq> date) (notes s)\<rparr>
       \<and> getNoteForDate (deleteNote s date (Some r4)) date = None
       \<and> deleteNote s date (Some r4) = deleteNote s date (None :: 'd response option)
       \<and> deleteActivity s activityId (Some r5) =
           s\<lparr>activities := filter (\<lambda>a. a_id a \<noteq> activityId) (activities s),
             logs := filter (\<lambda>l. l_activity_id l \<noteq> activityId) (logs s)\<rparr>
       \<and> deleteActivity s activityId (Some r5) = deleteActivity s activityId (None :: 'e response option)
       \<and> editActivity s activityId newName (Some r6) =
           (case find (\<lambda>a. a_id a = activityId) (activities s) of
              None \<Rightarrow> s
            | Some activity \<Rightarrow>
                s\<lparr>activities := update_first (\<lambda>a. a_id a = activityId)
                                    (\<lambda>a. a\<lparr>a_name := newName\<rparr>) (activities s)\<rparr>)
       \<and> find (\<lambda>a. a_id a = activityId) (activities (editActivity s activityId newName (Some r6)))
           = map_option (\<lambda>a. a\<lparr>a_name := newName\<rparr>) (find (\<lambda>a. a_id a = activityId) (activities s))
       \<and> editActivity s activityId newName (Some r6) = editActivity s activityId newName (None :: 'f response option)"
proof -
  have add: "addActivity s name uuid now (Some r1) =
           (\<lparr>a_id = uuid, a_name = name, a_created_at = now,
             a_order_index = maxOrder (activities s) + 1\<rparr>,
            s\<lparr>activities := activities s @
               [\<lparr>a_id = uuid, a_name = name, a_created_at = now,
                 a_order_index = maxOrder (activities s) + 1\<rparr>]\<rparr>)"
    and add': "addActivity s name uuid now (Some r1) = addActivity s name uuid now None"
    using assms(1) by (auto simp: addActivity_def Let_def split: option.splits)
  have tog: "toggleLog s activityId date uuid now (Some r2) =
           (case getLogForActivityAndDate s activityId date of
              Some existingLog \<Rightarrow>
                (None, s\<lparr>logs := filter (\<lambda>log. l_id log \<noteq> l_id existingLog) (logs s)\<rparr>)
            | None \<Rightarrow>
                (Some \<lparr>l_id = uuid, l_activity_id = activityId, l_logged_date = date,
                       l_created_at = now\<rparr>,
                 s\<lparr>logs := logs s @
                    [\<lparr>l_id = uuid, l_activity_id = activityId, l_logged_date = date,
                      l_created_at = now\<rparr>]\<rparr>))"
    and tog': "toggleLog s activityId date uuid now (Some r2) = toggleLog s activityId date uuid now None"
    using assms(2) by (auto simp: toggleLog_def Let_def split: option.splits)
  have save: "saveNote s date content uuid now (Some r3) =
           (case getNoteForDate s date of
              Some existingNote \<Rightarrow>
                (existingNote\<lparr>n_text := content, n_updated_at := now\<rparr>,
                 s\<lparr>notes := update_first (\<lambda>note. n_logged_date note = date)
                               (\<lambda>note. note\<lparr>n_text := content, n_updated_at := now\<rparr>) (notes s)\<rparr>)
            | None \<Rightarrow>
                (\<lparr>n_id = uuid, n_logged_date = date, n_text = content, n_created_at = now,
                  n_updated_at = now\<rparr>,
                 s\<lparr>notes := notes s @
                    [\<lparr>n_id = uuid, n_logged_date = date, n_text = content, n_created_at = now,
                      n_updated_at = now\<rparr>]\<rparr>))"
    and save': "saveNote s date content uuid now (Some r3) = saveNote s date content uuid now None"
    using assms(3) by (auto simp: saveNote_def Let_def split: option.splits)
  have saved: "getNoteForDate (snd (saveNote s date content uuid now (Some r3))) date
           = Some (fst (saveNote s date content uuid now (Some r3)))
       \<and> n_text (fst (saveNote s date content uuid now (Some r3))) = content"
  proof (cases "getNoteForDate s date")
    case None
    then have "find (\<lambda>note. n_logged_date note = date) (notes s) = None"
      by (simp add: getNoteForDate_def)
    then show ?thesis
      by (simp add: save None getNoteForDate_def find_snoc)
  next
    case (Some existingNote)
    then have f: "find (\<lambda>note. n_logged_date note = date) (notes s) = Some existingNote"
      by (simp add: getNoteForDate_def)
    then have "n_logged_date existingNote = date"
      by (auto simp: find_Some_iff)
    with find_update_first[OF f, of "\<lambda>note. note\<lparr>n_text := content, n_updated_at := now\<rparr>"]
    show ?thesis by (simp add: save getNoteForDate_def f)
  qed
  have delN: "deleteNote s date (Some r4) = s\<lparr>notes := filter (\<lambda>note. n_logged_date note \<noteq> date) (notes s)\<rparr>"
    and delN': "deleteNote s date (Some r4) = deleteNote s date (None :: 'd response option)"
    by (simp_all add: deleteNote_def)
  have delN'': "getNoteForDate (deleteNote s date (Some r4)) date = None"
    by (simp add: delN getNoteForDate_def find_filter_neg)
  have delA: "deleteActivity s activityId (Some r5) =
           s\<lparr>activities := filter (\<lambda>a. a_id a \<noteq> activityId) (activities s),
             logs := filter (\<lambda>l. l_activity_id l \<noteq> activityId) (logs s)\<rparr>"
    and delA': "deleteActivity s activityId (Some r5) = deleteActivity s activityId (None :: 'e response option)"
    by (simp_all add: deleteActivity_def)
  have edit: "editActivity s activityId newName (Some r6) =
           (case find (\<lambda>a. a_id a = activityId) (activities s) of
              None \<Rightarrow> s
            | Some activity \<Rightarrow>
                s\<lparr>activities := update_first (\<lambda>a. a_id a = activityId)
                                    (\<lambda>a. a\<lparr>a_name := newName\<rparr>) (activities s)\<rparr>)"
    and edit': "editActivity s activityId newName (Some r6) = editActivity s activityId newName (None :: 'f response option)"
    by (simp_all add: editActivity_def)
  have edited: "find (\<lambda>a. a_id a = activityId) (activities (editActivity s activityId newName (Some r6)))
           = map_option (\<lambda>a. a\<lparr>a_name := newName\<rparr>) (find (\<lambda>a. a_id a = activityId) (activities s))"
  proof (cases "find (\<lambda>a. a_id a = activityId) (activities s)")
    case None
    then show ?thesis by (simp add: edit)
  next
    case (Some activity)
    then have "a_id activity = activityId" by (auto simp: find_Some_iff)
    with find_update_first[OF Some, of "\<lambda>a. a\<lparr>a_name := newName\<rparr>"]
    show ?thesis by (simp add: edit Some)
  qed
  from add add' tog tog' save saved save' delN delN'' delN' delA delA' edit edited edit'
  show ?thesis by (intro conjI) (simp_all only:)
qed

theorem remote_failure_keeps_local_witness:
  "error (offline :: Activity response) \<noteq> None
   \<and> error (offline :: Log response) \<noteq> None
   \<and> error (offline :: Note response) \<noteq> None
   \<and> error (offline :: unit response) \<noteq> None
   \<and> addActivity cascade_example ''Music'' ''u1'' 9 (Some offline)
       = (\<lparr>a_id = ''u1'', a_name = ''Music'', a_created_at = 9, a_order_index = 2\<rparr>,
          cascade_example\<lparr>activities := activities cascade_example @
             [\<lparr>a_id = ''u1'', a_name = ''Music'', a_created_at = 9, a_order_index = 2\<rparr>]\<rparr>)
   \<and> toggleLog cascade_example ''a2'' ''2024-01-02'' ''u1'' 9 (Some offline)
       = (Some \<lparr>l_id = ''u1'', l_activity_id = ''a2'', l_logged_date = ''2024-01-02'', l_created_at = 9\<rparr>,
          cascade_example\<lparr>logs := logs cascade_example @
             [\<lparr>l_id = ''u1'', l_activity_id = ''a2'', l_logged_date = ''2024-01-02'',
               l_created_at = 9\<rparr>]\<rparr>)
   \<and> saveNote cascade_example ''2024-01-02'' ''rest day'' ''u1'' 9 (Some offline)
       = (\<lparr>n_id = ''u1'', n_logged_date = ''2024-01-02'', n_text = ''rest day'', n_created_at = 9,
           n_updated_at = 9\<rparr>,
          cascade_example\<lparr>notes :=
             [\<lparr>n_id = ''u1'', n_logged_date = ''2024-01-02'', n_text = ''rest day'', n_created_at = 9,
               n_updated_at = 9\<rparr>]\<rparr>)
   \<and> deleteNote cascade_example ''2024-01-02'' (Some (offline :: unit response)) = cascade_example
   \<and> map a_id (activities (deleteActivity cascade_example ''a2'' (Some (offline :: unit response))))
       = [''a1'']
   \<and> map l_id (logs (deleteActivity cascade_example ''a2'' (Some (offline :: unit response))))
       = [''l1'', ''l3'', ''l4'', ''l6'', ''l7'']
   \<and> map a_name (activities (editActivity cascade_example ''a2'' ''Run'' (Some (offline :: unit response))))
       = [''Exercise'', ''Run'']"
proof -
  have h1: "error (offline :: Activity response) \<noteq> None"
    and h2: "error (offline :: Log response) \<noteq> None"
    and h3: "error (offline :: Note response) \<noteq> None"
    and h4: "error (offline :: unit response) \<noteq> None"
    by (simp_all add: offline_def)
  note facts = remote_failure_keeps_local[OF h1 h2 h3 h4 h4 h4,
      where s = cascade_example and name = "''Music''" and uuid = "''u1''" and now = 9
        and activityId = "''a2''" and date = "''2024-01-02''" and content = "''rest day''"
        and newName = "''Run''"]
  have ex: "maxOrder (activities cascade_example) = 1"
    "getLogForActivityAndDate cascade_example ''a2'' ''2024-01-02'' = None"
    "getNoteForDate cascade_example ''2024-01-02'' = None"
    "find (\<lambda>a. a_id a = ''a2'') (activities cascade_example)
       = Some \<lparr>a_id = ''a2'', a_name = ''Reading'', a_created_at = 0, a_order_index = 1\<rparr>"
    "notes cascade_example = []"
    by (simp_all add: maxOrder_def getLogForActivityAndDate_def getNoteForDate_def
        cascade_example_def)
  from facts have
    a: "addActivity cascade_example ''Music'' ''u1'' 9 (Some offline)
       = (\<lparr>a_id = ''u1'', a_name = ''Music'', a_created_at = 9, a_order_index = 2\<rparr>,
          cascade_example\<lparr>activities := activities cascade_example @
             [\<lparr>a_id = ''u1'', a_name = ''Music'', a_created_at = 9, a_order_index = 2\<rparr>]\<rparr>)"
    and t: "toggleLog cascade_example ''a2'' ''2024-01-02'' ''u1'' 9 (Some offline)
       = (Some \<lparr>l_id = ''u1'', l_activity_id = ''a2'', l_logged_date = ''2024-01-02'', l_created_at = 9\<rparr>,
          cascade_example\<lparr>logs := logs cascade_example @
             [\<lparr>l_id = ''u1'', l_activity_id = ''a2'', l_logged_date = ''2024-01-02'',
               l_created_at = 9\<rparr>]\<rparr>)"
    and n: "saveNote cascade_example ''2024-01-02'' ''rest day'' ''u1'' 9 (Some offline)
       = (\<lparr>n_id = ''u1'', n_logged_date = ''2024-01-02'', n_text = ''rest day'', n_created_at = 9,
           n_updated_at = 9\<rparr>,
          cascade_example\<lparr>notes :=
             [\<lparr>n_id = ''u1'', n_logged_date = ''2024-01-02'', n_text = ''rest day'', n_created_at = 9,
               n_updated_at = 9\<rparr>]\<rparr>)"
    and dn: "deleteNote cascade_example ''2024-01-02'' (Some (offline :: unit response)) = cascade_example"
    and da: "map a_id (activities (deleteActivity cascade_example ''a2'' (Some (offline :: unit response))))
       = [''a1'']"
      "map l_id (logs (deleteActivity cascade_example ''a2'' (Some (offline :: unit response))))
       = [''l1'', ''l3'', ''l4'', ''l6'', ''l7'']"
    and e: "map a_name (activities (editActivity cascade_example ''a2'' ''Run'' (Some (offline :: unit response))))
       = [''Exercise'', ''Run'']"
    by (simp_all add: ex) (simp_all add: cascade_example_def)
  with h1 h2 h3 h4 show ?thesis by simp
qed

subsection \<open>Initialisation\<close>

lemma initialize_initialized: "initialized (initialize s supabase env)"
  by (auto simp: initialize_def split: option.splits prod.splits)

text \<open>
  C9. A call of \<^verbatim>\<open>initialize\<close> leaves the store initialised, and a call on an initialised
  store returns it as it is: the collections and the start date of the first call stay,
  whatever the client and the sample generator of the later call would supply.
\<close>

theorem initialize_idempotent:
  "initialized (initialize s supabase env)
   \<and> initialize (initialize s supabase env) supabase' env' = initialize s supabase env"
  using initialize_initialized[of s supabase env]
  by (simp add: initialize_def[of "initialize s supabase env"])

subsection \<open>No referential check\<close>

text \<open>
  C10. When the pair \<open>(a, d)\<close> has no log, \<^verbatim>\<open>toggleLog(a, d)\<close> appends and returns a log of
  activity \<open>a\<close> and date \<open>d\<close>, whatever the activities of the store are; when no activity
  has the identifier \<open>a\<close>, the store then holds a log whose activity does not exist.
\<close>

theorem toggleLog_no_referential_check:
  assumes "getLogForActivityAndDate s a d = None"
  shows "\<exists>l. toggleLog s a d uuid now supabase = (Some l, s\<lparr>logs := logs s @ [l]\<rparr>)
           \<and> l_activity_id l = a \<and> l_logged_date l = d
           \<and> l \<in> set (logs (snd (toggleLog s a d uuid now supabase)))
           \<and> activities (snd (toggleLog s a d uuid now supabase)) = activities s
           \<and> (find (\<lambda>x. a_id x = a) (activities s) = None \<longrightarrow>
                find (\<lambda>x. a_id x = l_activity_id l)
                  (activities (snd (toggleLog s a d uuid now supabase))) = None)"
proof -
  from toggleLog_absent[OF assms, of uuid now supabase] obtain l where
    l: "toggleLog s a d uuid now supabase = (Some l, s\<lparr>logs := logs s @ [l]\<rparr>)"
       "l_activity_id l = a" "l_logged_date l = d" by blast
  then show ?thesis by simp
qed

theorem toggleLog_no_referential_check_witness:
  "getLogForActivityAndDate (constructor 0 False) ''ghost'' ''2024-01-01'' = None
   \<and> find (\<lambda>x. a_id x = ''ghost'') (activities (constructor 0 False)) = None
   \<and> toggleLog (constructor 0 False) ''ghost'' ''2024-01-01'' ''u1'' 1 None
      = (Some \<lparr>l_id = ''u1'', l_activity_id = ''ghost'', l_logged_date = ''2024-01-01'', l_created_at = 1\<rparr>,
         constructor 0 False\<lparr>logs := [\<lparr>l_id = ''u1'', l_activity_id = ''ghost'',
                                         l_logged_date = ''2024-01-01'', l_created_at = 1\<rparr>]\<rparr>)
   \<and> activities (snd (toggleLog (constructor 0 False) ''ghost'' ''2024-01-01'' ''u1'' 1 None)) = []"
proof -
  have h: "getLogForActivityAndDate (constructor 0 False) ''ghost'' ''2024-01-01'' = None"
    by (simp add: getLogForActivityAndDate_def constructor_def)
  from toggleLog_no_referential_check[OF h, of "''u1''" 1 None] h
  show ?thesis
    by (auto simp: constructor_def toggleLog_def getLogForActivityAndDate_def Let_def)
qed

subsection \<open>Navigation\<close>

lemma goBack_max: "start \<le> v \<Longrightarrow> goBack v start = max (subDays v VISIBLE_DAYS) start"
  by (auto simp: goBack_def canGoBack_def Let_def subDays_def addDays_def VISIBLE_DAYS_def
      MS_PER_DAY_def)

lemma goBack_before: "v \<le> start \<Longrightarrow> goBack v start = v"
  by (simp add: goBack_def canGoBack_def)

lemma goBack_le: "goBack v start \<le> v"
  by (auto simp: goBack_def canGoBack_def Let_def subDays_def addDays_def VISIBLE_DAYS_def
      MS_PER_DAY_def)

lemma goBack_iterate:
  "start \<le> v \<Longrightarrow>
     ((\<lambda>x. goBack x start) ^^ k) v = max (subDays v (int k * VISIBLE_DAYS)) start"
proof (induction k)
  case 0
  then show ?case by (simp add: subDays_def addDays_def)
next
  case (Suc k)
  have "start \<le> max (subDays v (int k * VISIBLE_DAYS)) start" by simp
  from goBack_max[OF this] Suc show ?case
    by (simp add: subDays_def addDays_def VISIBLE_DAYS_def MS_PER_DAY_def max_def)
qed

lemma goBack_reaches:
  assumes "start \<le> v" and "nat ((v - start) div (VISIBLE_DAYS * MS_PER_DAY)) < k"
  shows "((\<lambda>x. goBack x start) ^^ k) v = start"
proof -
  let ?W = "VISIBLE_DAYS * MS_PER_DAY"
  have W: "0 < ?W" by (simp add: VISIBLE_DAYS_def MS_PER_DAY_def)
  from assms have "(v - start) div ?W < int k" by linarith
  then have "(v - start) div ?W + 1 \<le> int k" by simp
  then have "((v - start) div ?W + 1) * ?W \<le> int k * ?W"
    using W by (simp add: mult_right_mono)
  moreover have "v - start < ((v - start) div ?W + 1) * ?W"
  proof -
    have "(v - start) mod ?W < ?W" using W by simp
    moreover have "v - start = (v - start) div ?W * ?W + (v - start) mod ?W"
      by (rule div_mult_mod_eq[symmetric])
    ultimately show ?thesis by (simp add: distrib_right)
  qed
  ultimately have "v - int k * ?W < start" by linarith
  then show ?thesis
    by (simp add: goBack_iterate[OF assms(1)] subDays_def addDays_def algebra_simps)
qed

text \<open>
  C4, as amended. When the view starts on or after the history start, \<^verbatim>\<open>goBack\<close> moves the
  view start back by \<open>VISIBLE_DAYS\<close> days, or to the history start when that would pass
  it; the view start never comes before the history start, repeated calls reach the history
  start and stay there, and \<open>canGoBack\<close>, which is \<open>start < viewStart\<close>, is false exactly
  there. When the view starts before the history start, \<^verbatim>\<open>goBack\<close> leaves it where it is.
\<close>

theorem goBack_clamped:
  "(start \<le> v \<longrightarrow>
      goBack v start = max (subDays v VISIBLE_DAYS) start
    \<and> start \<le> goBack v start
    \<and> (\<forall>k. nat ((v - start) div (VISIBLE_DAYS * MS_PER_DAY)) < k \<longrightarrow>
           ((\<lambda>x. goBack x start) ^^ k) v = start)
    \<and> (\<not> canGoBack v start \<longleftrightarrow> v = start))
   \<and> (v < start \<longrightarrow> goBack v start = v \<and> \<not> canGoBack v start)
   \<and> (canGoBack v start \<longleftrightarrow> start < v)"
proof -
  have a: "goBack v start = max (subDays v VISIBLE_DAYS) start" if "start \<le> v"
    by (rule goBack_max[OF that])
  have b: "start \<le> goBack v start" if "start \<le> v"
    by (simp add: a[OF that])
  have c: "((\<lambda>x. goBack x start) ^^ k) v = start"
    if "start \<le> v" "nat ((v - start) div (VISIBLE_DAYS * MS_PER_DAY)) < k" for k
    by (rule goBack_reaches[OF that])
  have d: "\<not> canGoBack v start \<longleftrightarrow> v = start" if "start \<le> v"
    using that by (auto simp: canGoBack_def)
  have e: "goBack v start = v \<and> \<not> canGoBack v start" if "v < start"
    using that by (simp add: goBack_before canGoBack_def)
  have f: "canGoBack v start \<longleftrightarrow> start < v"
    by (simp add: canGoBack_def)
  from a b c d e f show ?thesis by blast
qed

theorem goBack_clamped_witness:
  "(0::int) \<le> 34 * MS_PER_DAY
   \<and> goBack (34 * MS_PER_DAY) 0 = 27 * MS_PER_DAY
   \<and> goBack (6 * MS_PER_DAY) 0 = 0
   \<and> ((\<lambda>x. goBack x 0) ^^ 5) (34 * MS_PER_DAY) = 0
   \<and> \<not> canGoBack 0 0
   \<and> 34 * MS_PER_DAY < 38 * MS_PER_DAY
   \<and> goBack (34 * MS_PER_DAY) (38 * MS_PER_DAY) = 34 * MS_PER_DAY"
  using goBack_clamped[of 0 "34 * MS_PER_DAY"] goBack_clamped[of 0 "6 * MS_PER_DAY"]
    goBack_clamped[of 0 0] goBack_clamped[of "38 * MS_PER_DAY" "34 * MS_PER_DAY"]
  by (simp add: MS_PER_DAY_def VISIBLE_DAYS_def subDays_def addDays_def)

text \<open>
  On day 40, with a remote store whose first log is two days old, the history starts on
  day 38 and the hook's initial view on day 34, before it; \<^verbatim>\<open>goBack\<close> leaves the view
  there, before the history start.
\<close>

theorem goBack_before_history_start:
  "getStartDate (snd (loadFromSupabase (constructor (40 * MS_PER_DAY) True) recent_client))
     = 38 * MS_PER_DAY
   \<and> viewStartDate (useTracker_initial (40 * MS_PER_DAY)) = 34 * MS_PER_DAY
   \<and> goBack (34 * MS_PER_DAY) (38 * MS_PER_DAY) = 34 * MS_PER_DAY
   \<and> goBack (34 * MS_PER_DAY) (38 * MS_PER_DAY) < 38 * MS_PER_DAY
   \<and> \<not> canGoBack (34 * MS_PER_DAY) (38 * MS_PER_DAY)"
  by (simp add: loadFromSupabase_def recent_client_def getStartDate_def constructor_def
      useTracker_initial_def startOfDay_def subDays_def addDays_def goBack_def
      canGoBack_def MS_PER_DAY_def VISIBLE_DAYS_def)

lemma goForward_min:
  "addDays v (VISIBLE_DAYS - 1) \<le> today \<Longrightarrow>
     goForward v today = min (addDays v VISIBLE_DAYS) (subDays today (VISIBLE_DAYS - 1))"
  by (auto simp: goForward_def canGoForward_def Let_def subDays_def addDays_def VISIBLE_DAYS_def
      MS_PER_DAY_def)

lemma goForward_past_today:
  "today \<le> addDays v (VISIBLE_DAYS - 1) \<Longrightarrow> goForward v today = v"
  by (simp add: goForward_def canGoForward_def)

lemma goForward_iterate:
  "addDays v (VISIBLE_DAYS - 1) \<le> today \<Longrightarrow>
     ((\<lambda>x. goForward x today) ^^ k) v =
       min (addDays v (int k * VISIBLE_DAYS)) (subDays today (VISIBLE_DAYS - 1))"
proof (induction k)
  case 0
  then show ?case by (simp add: subDays_def addDays_def VISIBLE_DAYS_def MS_PER_DAY_def)
next
  case (Suc k)
  have "addDays (min (addDays v (int k * VISIBLE_DAYS)) (subDays today (VISIBLE_DAYS - 1)))
          (VISIBLE_DAYS - 1) \<le> today"
    by (simp add: subDays_def addDays_def min_def VISIBLE_DAYS_def MS_PER_DAY_def)
  from goForward_min[OF this] Suc show ?case
    by (simp add: subDays_def addDays_def VISIBLE_DAYS_def MS_PER_DAY_def min_def)
qed

lemma goForward_reaches:
  assumes "addDays v (VISIBLE_DAYS - 1) \<le> today"
      and "nat ((subDays today (VISIBLE_DAYS - 1) - v) div (VISIBLE_DAYS * MS_PER_DAY)) < k"
  shows "((\<lambda>x. goForward x today) ^^ k) v = subDays today (VISIBLE_DAYS - 1)"
proof -
  let ?W = "VISIBLE_DAYS * MS_PER_DAY"
  let ?m = "subDays today (VISIBLE_DAYS - 1)"
  have W: "0 < ?W" by (simp add: VISIBLE_DAYS_def MS_PER_DAY_def)
  from assms(2) have "(?m - v) div ?W < int k" by linarith
  then have "(?m - v) div ?W + 1 \<le> int k" by simp
  then have "((?m - v) div ?W + 1) * ?W \<le> int k * ?W"
    using W by (simp add: mult_right_mono)
  moreover have "?m - v < ((?m - v) div ?W + 1) * ?W"
  proof -
    have "(?m - v) mod ?W < ?W" using W by simp
    moreover have "?m - v = (?m - v) div ?W * ?W + (?m - v) mod ?W"
      by (rule div_mult_mod_eq[symmetric])
    ultimately show ?thesis by (simp add: distrib_right)
  qed
  ultimately have "?m < v + int k * ?W" by linarith
  then show ?thesis
    by (simp add: goForward_iterate[OF assms(1)] addDays_def algebra_simps)
qed

lemma view_reachable_bound: "view_reachable today v \<Longrightarrow> addDays v (VISIBLE_DAYS - 1) \<le> today"
proof (induction rule: view_reachable.induct)
  case (reach_initial now)
  have "0 \<le> now mod MS_PER_DAY" by (simp add: MS_PER_DAY_def)
  then show ?case
    by (simp add: useTracker_initial_def startOfDay_def subDays_def addDays_def VISIBLE_DAYS_def)
next
  case (reach_back today v start)
  with goBack_le[of v start] show ?case by (simp add: addDays_def)
next
  case (reach_forward today v)
  then show ?case
    by (simp add: goForward_min)
      (simp add: addDays_def subDays_def min_def VISIBLE_DAYS_def MS_PER_DAY_def)
next
  case (reach_later today v today')
  then show ?case by simp
qed

lemma view_reachable_goBack_iterate:
  "view_reachable today v \<Longrightarrow> view_reachable today (((\<lambda>x. goBack x start) ^^ k) v)"
  by (induction k) (auto intro: reach_back)

text \<open>
  C5. For every view start the hook can hold, \<^verbatim>\<open>goForward\<close> moves the view start forward
  by \<open>VISIBLE_DAYS\<close> days, or to the start whose last visible day is today when that would
  pass it; the last visible day never exceeds today, repeated calls end with the last
  visible day equal to today and \<open>canGoForward\<close> false, and \<open>canGoForward\<close> is
  \<open>viewStart + (VISIBLE_DAYS - 1) days < today\<close>.
\<close>

theorem goForward_clamped:
  assumes "view_reachable today v"
  shows "goForward v today = min (addDays v VISIBLE_DAYS) (subDays today (VISIBLE_DAYS - 1))
       \<and> addDays (goForward v today) (VISIBLE_DAYS - 1) \<le> today
       \<and> (\<forall>k. nat ((subDays today (VISIBLE_DAYS - 1) - v) div (VISIBLE_DAYS * MS_PER_DAY)) < k \<longrightarrow>
              addDays (((\<lambda>x. goForward x today) ^^ k) v) (VISIBLE_DAYS - 1) = today
            \<and> \<not> canGoForward (((\<lambda>x. goForward x today) ^^ k) v) today)
       \<and> (canGoForward v today \<longleftrightarrow> addDays v (VISIBLE_DAYS - 1) < today)"
proof -
  from assms have bound: "addDays v (VISIBLE_DAYS - 1) \<le> today"
    by (rule view_reachable_bound)
  have a: "goForward v today = min (addDays v VISIBLE_DAYS) (subDays today (VISIBLE_DAYS - 1))"
    by (rule goForward_min[OF bound])
  have b: "addDays (goForward v today) (VISIBLE_DAYS - 1) \<le> today"
    by (rule view_reachable_bound[OF reach_forward[OF assms]])
  have c: "addDays (((\<lambda>x. goForward x today) ^^ k) v) (VISIBLE_DAYS - 1) = today
         \<and> \<not> canGoForward (((\<lambda>x. goForward x today) ^^ k) v) today"
    if "nat ((subDays today (VISIBLE_DAYS - 1) - v) div (VISIBLE_DAYS * MS_PER_DAY)) < k" for k
    by (simp add: goForward_reaches[OF bound that] canGoForward_def subDays_def addDays_def
        VISIBLE_DAYS_def)
  have d: "canGoForward v today \<longleftrightarrow> addDays v (VISIBLE_DAYS - 1) < today"
    by (simp add: canGoForward_def)
  from a b c d show ?thesis by blast
qed

theorem goForward_clamped_witness:
  "view_reachable (40 * MS_PER_DAY) 0
   \<and> goForward 0 (40 * MS_PER_DAY) = 7 * MS_PER_DAY
   \<and> addDays (((\<lambda>x. goForward x (40 * MS_PER_DAY)) ^^ 5) 0) (VISIBLE_DAYS - 1) = 40 * MS_PER_DAY
   \<and> \<not> canGoForward (((\<lambda>x. goForward x (40 * MS_PER_DAY)) ^^ 5) 0) (40 * MS_PER_DAY)"
proof -
  have "view_reachable (startOfDay (40 * MS_PER_DAY)) (viewStartDate (useTracker_initial (40 * MS_PER_DAY)))"
    by (rule reach_initial)
  then have "view_reachable (40 * MS_PER_DAY) (34 * MS_PER_DAY)"
    by (simp add: useTracker_initial_def startOfDay_def subDays_def addDays_def VISIBLE_DAYS_def)
  from view_reachable_goBack_iterate[OF this, where start = 0 and k = 5]
  have r: "view_reachable (40 * MS_PER_DAY) 0"
    using goBack_reaches[of 0 "34 * MS_PER_DAY" 5]
    by (simp add: MS_PER_DAY_def VISIBLE_DAYS_def)
  have k: "nat ((subDays (40 * MS_PER_DAY) (VISIBLE_DAYS - 1) - 0) div (VISIBLE_DAYS * MS_PER_DAY)) < 5"
    by (simp add: MS_PER_DAY_def VISIBLE_DAYS_def subDays_def addDays_def)
  from goForward_clamped[OF r] k
  have "goForward 0 (40 * MS_PER_DAY)
          = min (addDays 0 VISIBLE_DAYS) (subDays (40 * MS_PER_DAY) (VISIBLE_DAYS - 1))
      \<and> addDays (((\<lambda>x. goForward x (40 * MS_PER_DAY)) ^^ 5) 0) (VISIBLE_DAYS - 1) = 40 * MS_PER_DAY
      \<and> \<not> canGoForward (((\<lambda>x. goForward x (40 * MS_PER_DAY)) ^^ 5) 0) (40 * MS_PER_DAY)"
    by blast
  with r show ?thesis
    by (simp add: MS_PER_DAY_def VISIBLE_DAYS_def subDays_def addDays_def canGoForward_def)
qed

subsection \<open>The full history sequence\<close>

lemma dayOf_subDays_midnight:
  "today mod MS_PER_DAY = 0 \<Longrightarrow> dayOf (subDays today i) = dayOf today - i"
proof -
  have "MS_PER_DAY \<noteq> 0" by (simp add: MS_PER_DAY_def)
  then have "(today + - i * MS_PER_DAY) div MS_PER_DAY = - i + today div MS_PER_DAY"
    by (rule div_mult_self1)
  then show ?thesis by (simp add: dayOf_def subDays_def addDays_def)
qed

lemma differenceInDays_midnight:
  assumes "today mod MS_PER_DAY = 0" and "start \<le> today"
  shows "differenceInDays today start =
           dayOf today - dayOf start - (if start mod MS_PER_DAY = 0 then 0 else 1)"
proof -
  have pos: "0 < MS_PER_DAY" by (simp add: MS_PER_DAY_def)
  from assms(1) div_mult_mod_eq[of today MS_PER_DAY]
  have today: "today = dayOf today * MS_PER_DAY"
    by (simp add: dayOf_def)
  have "today - start = - start + dayOf today * MS_PER_DAY"
    using today by simp
  then have "(today - start) div MS_PER_DAY = (- start + dayOf today * MS_PER_DAY) div MS_PER_DAY"
    by (rule arg_cong)
  also have "\<dots> = dayOf today + (- start) div MS_PER_DAY"
    using pos by (intro div_mult_self1) simp
  also have "(- start) div MS_PER_DAY =
      - dayOf start - (if start mod MS_PER_DAY = 0 then 0 else 1)"
    using pos by (simp add: zdiv_zminus1_eq_if dayOf_def)
  finally show ?thesis using assms(2) by (simp add: differenceInDays_def)
qed

lemma allDates_days:
  assumes "today mod MS_PER_DAY = 0" and "start \<le> today"
  shows "allDates cal today start =
           map (\<lambda>i. cal (dayOf today - int i))
             [0..<nat (dayOf today - dayOf start + (if start mod MS_PER_DAY = 0 then 1 else 0))]"
proof -
  have "differenceInDays today start + 1 =
          dayOf today - dayOf start + (if start mod MS_PER_DAY = 0 then 1 else 0)"
    by (simp add: differenceInDays_midnight[OF assms])
  then show ?thesis
    by (simp add: allDates_def format_def dayOf_subDays_midnight[OF assms(1)])
qed

text \<open>
  C6. The full history sequence is meant to run from today back through the day of the
  history start. The code stops a day short whenever the start date is not at local
  midnight: a store constructed at noon of day 40 without a client has its start date at
  noon of day 10, and \<open>today\<close> is midnight of day 40; only 29 full days lie between them,
  so \<open>allDates\<close> has 30 entries, from day 40 back to day 11, and the calendar day of the
  start date, day 10, which the paged view does show, is not among them.
\<close>

theorem allDates_stops_after_start_day:
  "allDates cal (startOfDay (40 * MS_PER_DAY + 43200000))
       (getStartDate (constructor (40 * MS_PER_DAY + 43200000) False))
     = map (\<lambda>i. cal (40 - int i)) [0..<30]
   \<and> last (allDates cal (startOfDay (40 * MS_PER_DAY + 43200000))
       (getStartDate (constructor (40 * MS_PER_DAY + 43200000) False))) = cal 11
   \<and> format cal (getStartDate (constructor (40 * MS_PER_DAY + 43200000) False)) = cal 10"
proof -
  let ?now = "40 * MS_PER_DAY + 43200000"
  let ?today = "startOfDay ?now"
  let ?start = "getStartDate (constructor ?now False)"
  have today: "?today = 40 * MS_PER_DAY" and start: "?start = 10 * MS_PER_DAY + 43200000"
    by (simp_all add: startOfDay_def getStartDate_def constructor_def subDays_def addDays_def
        MS_PER_DAY_def)
  have mid: "?today mod MS_PER_DAY = 0" and le: "?start \<le> ?today"
    and day: "dayOf ?today = 40" and day': "dayOf ?start = 10" and off: "?start mod MS_PER_DAY \<noteq> 0"
    unfolding today start by (simp_all add: MS_PER_DAY_def dayOf_def)
  have list: "allDates cal ?today ?start = map (\<lambda>i. cal (40 - int i)) [0..<30]"
    using off by (simp add: allDates_days[OF mid le] day day')
  have "last (map (\<lambda>i. cal (40 - int i)) [0..<30]) = cal 11"
    by (simp add: last_map)
  with list day' show ?thesis by (simp add: format_def)
qed

end
